theory Spec2Isabelle
  imports Main "HOL-Library.Sublist" "HOL-Library.AList"
begin

section \<open>Paths (pathlib.PurePath on POSIX)\<close>

text \<open>
  A path is absolute: the list of its components below the root directory, the empty list
  being the root itself.  A relative argument of the program names the same place, read
  from the working directory; only its printed form differs.  A component may be \<open>..\<close>
  (pathlib keeps it), and \<open>with_suffix\<close> can produce a last component \<open>.\<close>; the file
  system resolves both.
\<close>

type_synonym path = "string list"

fun path_str :: "path \<Rightarrow> string" where
  \<comment> \<open>\<open>str(path)\<close>.\<close>
  "path_str [] = ''/''"
| "path_str [n] = ''/'' @ n"
| "path_str (n # m # ns) = ''/'' @ n @ path_str (m # ns)"

definition normpath :: "path \<Rightarrow> path" where
  \<comment> \<open>\<open>os.path.normpath\<close> of an absolute path: \<open>.\<close> is dropped and \<open>..\<close> removes
      the component before it (at the root it is dropped).\<close>
  "normpath p =
     foldl (\<lambda>acc n. if n = ''.'' then acc else if n = ''..'' then butlast acc else acc @ [n]) [] p"

definition name :: "path \<Rightarrow> string" where
  \<comment> \<open>\<open>PurePath.name\<close>: the final component, the empty string when there is none.\<close>
  "name p = (if p = [] then [] else last p)"

definition parent :: "path \<Rightarrow> path" where
  \<comment> \<open>\<open>PurePath.parent\<close>: the top directory is its own parent.\<close>
  "parent p = butlast p"

fun rfind :: "char \<Rightarrow> string \<Rightarrow> int" where
  \<comment> \<open>\<open>str.rfind\<close>: the highest index of the character, or -1.\<close>
  "rfind c [] = - 1"
| "rfind c (x # xs) =
     (let r = rfind c xs in if 0 \<le> r then r + 1 else if x = c then 0 else - 1)"

definition suffix_of :: "string \<Rightarrow> string" where
  \<comment> \<open>\<open>PurePath.suffix\<close>:
      \<open>i = name.rfind('.'); return name[i:] if 0 < i < len(name) - 1 else ''\<close>.\<close>
  "suffix_of nm =
     (let i = rfind CHR ''.'' nm
      in if 0 < i \<and> i < int (length nm) - 1 then drop (nat i) nm else [])"

definition stem :: "string \<Rightarrow> string" where
  \<comment> \<open>\<open>PurePath.stem\<close>:
      \<open>i = name.rfind('.'); return name[:i] if 0 < i < len(name) - 1 else name\<close>.\<close>
  "stem nm =
     (let i = rfind CHR ''.'' nm
      in if 0 < i \<and> i < int (length nm) - 1 then take (nat i) nm else nm)"

section \<open>Exceptions\<close>

text \<open>
  The exception classes the program can meet, each with the text \<open>str(e)\<close> gives.
  \<open>NotImplementedError\<close> is a subclass of \<open>RuntimeError\<close>; \<open>PermissionError\<close>,
  \<open>FileExistsError\<close>, \<open>FileNotFoundError\<close>, \<open>IsADirectoryError\<close> and
  \<open>NotADirectoryError\<close> are subclasses of \<open>OSError\<close>; all are subclasses of
  \<open>Exception\<close>.
\<close>

datatype exn =
    BadZipFile string
  | RuntimeError string
  | NotImplementedError string
  | PermissionError string
  | FileExistsError string
  | FileNotFoundError string
  | IsADirectoryError string
  | NotADirectoryError string
  | ValueError string
  | OtherException string

fun exn_str :: "exn \<Rightarrow> string" where
  "exn_str (BadZipFile m) = m"
| "exn_str (RuntimeError m) = m"
| "exn_str (NotImplementedError m) = m"
| "exn_str (PermissionError m) = m"
| "exn_str (FileExistsError m) = m"
| "exn_str (FileNotFoundError m) = m"
| "exn_str (IsADirectoryError m) = m"
| "exn_str (NotADirectoryError m) = m"
| "exn_str (ValueError m) = m"
| "exn_str (OtherException m) = m"

fun is_BadZipFile :: "exn \<Rightarrow> bool" where
  "is_BadZipFile (BadZipFile m) = True"
| "is_BadZipFile e = False"

fun is_RuntimeError :: "exn \<Rightarrow> bool" where
  "is_RuntimeError (RuntimeError m) = True"
| "is_RuntimeError (NotImplementedError m) = True"
| "is_RuntimeError e = False"

fun is_PermissionError :: "exn \<Rightarrow> bool" where
  "is_PermissionError (PermissionError m) = True"
| "is_PermissionError e = False"

fun is_FileNotFoundError :: "exn \<Rightarrow> bool" where
  "is_FileNotFoundError (FileNotFoundError m) = True"
| "is_FileNotFoundError e = False"

fun is_FileExistsError :: "exn \<Rightarrow> bool" where
  "is_FileExistsError (FileExistsError m) = True"
| "is_FileExistsError e = False"

definition repr_str :: "string \<Rightarrow> string" where
  \<comment> \<open>\<open>repr\<close> of a string without characters that need escaping.\<close>
  "repr_str s = [CHR 0x27] @ s @ [CHR 0x27]"

definition with_suffix :: "path \<Rightarrow> string \<Rightarrow> exn + path" where
  \<comment> \<open>\<open>PurePath.with_suffix\<close>: rejects a suffix with a separator, a suffix that does
      not start with a dot, the suffix \<open>.\<close>, and a path with an empty name.\<close>
  "with_suffix p sfx =
     (if CHR ''/'' \<in> set sfx then Inl (ValueError (''Invalid suffix '' @ repr_str sfx))
      else if (sfx \<noteq> [] \<and> hd sfx \<noteq> CHR ''.'') \<or> sfx = ''.''
        then Inl (ValueError (''Invalid suffix '' @ repr_str sfx))
      else if name p = []
        then Inl (ValueError (repr_str (path_str p) @ '' has an empty name''))
      else let old_suffix = suffix_of (name p);
               nm = (if old_suffix = [] then name p @ sfx
                     else take (length (name p) - length old_suffix) (name p) @ sfx)
           in Inr (parent p @ [nm]))"

section \<open>Archives and the file system\<close>

text \<open>
  The bytes of a file are either the bytes of a zip container, given by its members in
  central-directory order, or anything else.  A member is intact, or its stored CRC-32
  does not match its data, or it is encrypted.  The data of a member is again a file
  content, so an archive may hold archives.
\<close>

datatype member_status = Intact | BadCRC | Encrypted

datatype content = Raw string | Zip "member list"
  and member = Member (filename: string) (status: member_status) (data: content)

text \<open>
  A file carries a flag that says whether the process may open it (for reading and for
  writing); a directory lists its entries in the order the operating system enumerates
  them.  The file systems modelled have no symbolic links, and the process may list,
  search and write every directory.
\<close>

datatype node = File bool content | Dir "(string \<times> node) list"

datatype 'a walk = Found 'a | Missing | NotDir

fun descend :: "node \<Rightarrow> path \<Rightarrow> node walk" where
  \<comment> \<open>Following entry names down from a node: ENOENT for a missing name, ENOTDIR below a
      file.\<close>
  "descend t [] = Found t"
| "descend (File a c) (n # ns) = NotDir"
| "descend (Dir es) (n # ns) =
     (case map_of es n of None \<Rightarrow> Missing | Some ch \<Rightarrow> descend ch ns)"

fun resolve :: "node \<Rightarrow> path \<Rightarrow> path \<Rightarrow> path walk" where
  \<comment> \<open>Path resolution from the directory reached so far (given by its entry names from
      the root): \<open>.\<close> stays, \<open>..\<close> goes to the parent (the root is its own parent), a
      name goes to that entry.  Each step needs the place reached to be a directory.\<close>
  "resolve t cp [] = Found cp"
| "resolve t cp (n # ns) =
     (case descend t cp of
        Found (Dir es) \<Rightarrow>
          (if n = ''.'' then resolve t cp ns
           else if n = ''..'' then resolve t (butlast cp) ns
           else (case map_of es n of
                   None \<Rightarrow> Missing
                 | Some ch \<Rightarrow> resolve t (cp @ [n]) ns))
      | Found (File a c) \<Rightarrow> NotDir
      | Missing \<Rightarrow> Missing
      | NotDir \<Rightarrow> NotDir)"

definition realpath :: "node \<Rightarrow> path \<Rightarrow> path walk" where
  \<comment> \<open>Where a path leads, as entry names from the root.\<close>
  "realpath t p = resolve t [] p"

definition walk_to :: "node \<Rightarrow> path \<Rightarrow> node walk" where
  \<comment> \<open>What a path leads to.\<close>
  "walk_to t p =
     (case realpath t p of
        Found cp \<Rightarrow> descend t cp
      | Missing \<Rightarrow> Missing
      | NotDir \<Rightarrow> NotDir)"

definition lookup :: "node \<Rightarrow> path \<Rightarrow> node option" where
  "lookup t p = (case walk_to t p of Found x \<Rightarrow> Some x | _ \<Rightarrow> None)"

definition exists :: "node \<Rightarrow> path \<Rightarrow> bool" where
  \<comment> \<open>\<open>Path.exists\<close>, \<open>os.path.exists\<close>.\<close>
  "exists t p = (lookup t p \<noteq> None)"

definition is_dir :: "node \<Rightarrow> path \<Rightarrow> bool" where
  \<comment> \<open>\<open>Path.is_dir\<close>, \<open>os.path.isdir\<close>.\<close>
  "is_dir t p = (case lookup t p of Some (Dir es) \<Rightarrow> True | _ \<Rightarrow> False)"

fun put :: "path \<Rightarrow> node \<Rightarrow> node \<Rightarrow> node" where
  \<comment> \<open>Stores a node under entry names from the root, the parent being a directory: a new
      name is appended to the parent's entries, an old one keeps its place.\<close>
  "put [] v t = v"
| "put (n # ns) v (File a c) = File a c"
| "put (n # ns) v (Dir es) =
     (case map_of es n of
        None \<Rightarrow> (if ns = [] then Dir (es @ [(n, v)]) else Dir es)
      | Some ch \<Rightarrow> Dir (AList.update n (put ns v ch) es))"

definition os_mkdir :: "path \<Rightarrow> node \<Rightarrow> exn + node" where
  \<comment> \<open>\<open>os.mkdir\<close>: one level, the parent must be a directory and the name unused
      (\<open>.\<close> and \<open>..\<close> always exist).\<close>
  "os_mkdir p t =
     (if p = [] then Inl (FileExistsError (''[Errno 17] File exists: '' @ repr_str (path_str p)))
      else case realpath t (parent p) of
        Missing \<Rightarrow>
          Inl (FileNotFoundError (''[Errno 2] No such file or directory: '' @ repr_str (path_str p)))
      | NotDir \<Rightarrow>
          Inl (NotADirectoryError (''[Errno 20] Not a directory: '' @ repr_str (path_str p)))
      | Found cp \<Rightarrow>
          (case descend t cp of
             Found (Dir es) \<Rightarrow>
               (if last p = ''.'' \<or> last p = ''..''
                then Inl (FileExistsError (''[Errno 17] File exists: '' @ repr_str (path_str p)))
                else case map_of es (last p) of
                       Some ch \<Rightarrow>
                         Inl (FileExistsError (''[Errno 17] File exists: '' @ repr_str (path_str p)))
                     | None \<Rightarrow> Inr (put (cp @ [last p]) (Dir []) t))
           | Found (File a c) \<Rightarrow>
               Inl (NotADirectoryError (''[Errno 20] Not a directory: '' @ repr_str (path_str p)))
           | Missing \<Rightarrow>
               Inl (FileNotFoundError (''[Errno 2] No such file or directory: '' @ repr_str (path_str p)))
           | NotDir \<Rightarrow>
               Inl (NotADirectoryError (''[Errno 20] Not a directory: '' @ repr_str (path_str p)))))"

definition mkdir_no_parents :: "path \<Rightarrow> node \<Rightarrow> exn + node" where
  \<comment> \<open>\<open>Path.mkdir(parents=False, exist_ok=True)\<close>.\<close>
  "mkdir_no_parents p t =
     (case os_mkdir p t of
        Inr t' \<Rightarrow> Inr t'
      | Inl e \<Rightarrow> if is_FileNotFoundError e then Inl e
                 else if \<not> is_dir t p then Inl e else Inr t)"

function path_mkdir :: "path \<Rightarrow> node \<Rightarrow> exn + node" where
  \<comment> \<open>\<open>Path.mkdir(parents=True, exist_ok=True)\<close>: on FileNotFoundError the parent is
      made first and the call repeated without \<open>parents\<close>; any other OSError is
      swallowed when the path is a directory.\<close>
  "path_mkdir p t =
     (case os_mkdir p t of
        Inr t' \<Rightarrow> Inr t'
      | Inl e \<Rightarrow>
          if is_FileNotFoundError e then
            (if parent p = p then Inl e
             else case path_mkdir (parent p) t of
                    Inl e' \<Rightarrow> Inl e'
                  | Inr t1 \<Rightarrow> mkdir_no_parents p t1)
          else if \<not> is_dir t p then Inl e else Inr t)"
  by pat_completeness auto
termination
proof (relation "measure (\<lambda>(p, t). length p)")
  fix p :: path and t :: node
  assume "parent p \<noteq> p"
  then have "p \<noteq> []" by (auto simp: parent_def)
  then show "((parent p, t), (p, t)) \<in> measure (\<lambda>(p, t). length p)"
    by (simp add: parent_def)
qed simp

declare path_mkdir.simps [simp del]

function makedirs :: "path \<Rightarrow> node \<Rightarrow> exn + node" where
  \<comment> \<open>\<open>os.makedirs(name)\<close> with \<open>exist_ok=False\<close>: a missing head is made first, a
      FileExistsError from that is ignored, then the leaf is made.\<close>
  "makedirs p t =
     (case (if p \<noteq> [] \<and> \<not> exists t (parent p)
            then (case makedirs (parent p) t of
                    Inl e \<Rightarrow> if is_FileExistsError e then Inr t else Inl e
                  | Inr t' \<Rightarrow> Inr t')
            else Inr t) of
        Inl e \<Rightarrow> Inl e
      | Inr t1 \<Rightarrow> os_mkdir p t1)"
  by pat_completeness auto
termination
  by (relation "measure (\<lambda>(p, t). length p)") (auto simp: parent_def)

declare makedirs.simps [simp del]

definition open_wb :: "path \<Rightarrow> node \<Rightarrow> exn + (path \<times> node)" where
  \<comment> \<open>\<open>open(path, "wb")\<close>: creates the file, or empties an existing one that the
      process may open.  The handle returned is the place of the file.\<close>
  "open_wb p t =
     (if p = [] then Inl (IsADirectoryError (''[Errno 21] Is a directory: '' @ repr_str (path_str p)))
      else case realpath t (parent p) of
        Missing \<Rightarrow>
          Inl (FileNotFoundError (''[Errno 2] No such file or directory: '' @ repr_str (path_str p)))
      | NotDir \<Rightarrow>
          Inl (NotADirectoryError (''[Errno 20] Not a directory: '' @ repr_str (path_str p)))
      | Found cp \<Rightarrow>
          (case descend t cp of
             Found (Dir es) \<Rightarrow>
               (if last p = ''.'' \<or> last p = ''..''
                then Inl (IsADirectoryError (''[Errno 21] Is a directory: '' @ repr_str (path_str p)))
                else case map_of es (last p) of
                       Some (Dir es') \<Rightarrow>
                         Inl (IsADirectoryError (''[Errno 21] Is a directory: '' @ repr_str (path_str p)))
                     | Some (File a c) \<Rightarrow>
                         if a then Inr (cp @ [last p], put (cp @ [last p]) (File True (Raw [])) t)
                         else Inl (PermissionError
                                (''[Errno 13] Permission denied: '' @ repr_str (path_str p)))
                     | None \<Rightarrow> Inr (cp @ [last p], put (cp @ [last p]) (File True (Raw [])) t))
           | Found (File a c) \<Rightarrow>
               Inl (NotADirectoryError (''[Errno 20] Not a directory: '' @ repr_str (path_str p)))
           | Missing \<Rightarrow>
               Inl (FileNotFoundError (''[Errno 2] No such file or directory: '' @ repr_str (path_str p)))
           | NotDir \<Rightarrow>
               Inl (NotADirectoryError (''[Errno 20] Not a directory: '' @ repr_str (path_str p)))))"

definition write_bytes :: "path \<Rightarrow> content \<Rightarrow> node \<Rightarrow> node" where
  \<comment> \<open>Writing to the handle \<open>open_wb\<close> returned, and closing it.\<close>
  "write_bytes h c t = put h (File True c) t"

section \<open>Discovery: \<open>Path.rglob\<close>\<close>

fun fnmatch :: "string \<Rightarrow> string \<Rightarrow> bool" where
  \<comment> \<open>Shell-style matching of a name against a pattern of literal characters and
      \<open>*\<close> (the pattern of the program has nothing else); case-sensitive, and a leading
      dot is not special.\<close>
  "fnmatch [] [] = True"
| "fnmatch (c # cs) [] = False"
| "fnmatch [] (p # ps) = (p = CHR ''*'' \<and> fnmatch [] ps)"
| "fnmatch (c # cs) (p # ps) =
     (if p = CHR ''*'' then fnmatch (c # cs) ps \<or> fnmatch cs (p # ps)
      else c = p \<and> fnmatch cs ps)"

fun select_from :: "string \<Rightarrow> node \<Rightarrow> path list" where
  \<comment> \<open>The recursive wildcard selector: the matching entries of a directory, then those
      of each of its subdirectories in turn.  The paths are relative to the node.\<close>
  "select_from pat (File a c) = []"
| "select_from pat (Dir es) =
     map (\<lambda>e. [fst e]) (filter (\<lambda>e. fnmatch (fst e) pat) es)
     @ concat (map (\<lambda>e. map ((#) (fst e)) (select_from pat (snd e))) es)"

definition rglob :: "node \<Rightarrow> path \<Rightarrow> string \<Rightarrow> path list" where
  \<comment> \<open>\<open>base_dir.rglob(pattern)\<close>: nothing when the base is not a directory.\<close>
  "rglob t base pat =
     (case lookup t base of
        Some (Dir es) \<Rightarrow> map ((@) base) (select_from pat (Dir es))
      | _ \<Rightarrow> [])"

section \<open>The zip reader: \<open>zipfile.ZipFile\<close>\<close>

definition zip_open :: "node \<Rightarrow> path \<Rightarrow> exn + member list" where
  \<comment> \<open>\<open>zipfile.ZipFile(zpath, 'r')\<close>: opens the file and reads the central directory.\<close>
  "zip_open t zpath =
     (case walk_to t zpath of
        Missing \<Rightarrow>
          Inl (FileNotFoundError (''[Errno 2] No such file or directory: '' @ repr_str (path_str zpath)))
      | NotDir \<Rightarrow>
          Inl (NotADirectoryError (''[Errno 20] Not a directory: '' @ repr_str (path_str zpath)))
      | Found (Dir es) \<Rightarrow>
          Inl (IsADirectoryError (''[Errno 21] Is a directory: '' @ repr_str (path_str zpath)))
      | Found (File a c) \<Rightarrow>
          if \<not> a
          then Inl (PermissionError (''[Errno 13] Permission denied: '' @ repr_str (path_str zpath)))
          else (case c of
                  Raw b \<Rightarrow> Inl (BadZipFile ''File is not a zip file'')
                | Zip ms \<Rightarrow> Inr ms))"

definition member_open :: "member \<Rightarrow> exn + member" where
  \<comment> \<open>\<open>ZipFile.open(member)\<close> without a password.\<close>
  "member_open m =
     (if status m = Encrypted
      then Inl (RuntimeError (''File '' @ repr_str (filename m)
                  @ '' is encrypted, password required for extraction''))
      else Inr m)"

definition read_all :: "member \<Rightarrow> exn + content" where
  \<comment> \<open>Reading an opened member to its end, where the CRC-32 is compared.\<close>
  "read_all m =
     (if status m = BadCRC
      then Inl (BadZipFile (''Bad CRC-32 for file '' @ repr_str (filename m)))
      else Inr (data m))"

fun testzip :: "member list \<Rightarrow> exn + string option" where
  \<comment> \<open>\<open>ZipFile.testzip\<close>: reads every member; a BadZipFile while doing so gives the
      member's name, any other exception propagates.\<close>
  "testzip [] = Inr None"
| "testzip (m # ms) =
     (case (case member_open m of Inl e \<Rightarrow> Inl e | Inr f \<Rightarrow> read_all f) of
        Inl e \<Rightarrow> if is_BadZipFile e then Inr (Some (filename m)) else Inl e
      | Inr d \<Rightarrow> testzip ms)"

fun split_sep :: "char \<Rightarrow> string \<Rightarrow> string list" where
  \<comment> \<open>\<open>str.split(sep)\<close> for a one-character separator.\<close>
  "split_sep c [] = [[]]"
| "split_sep c (x # xs) =
     (if x = c then [] # split_sep c xs
      else case split_sep c xs of
             w # ws \<Rightarrow> (x # w) # ws
           | [] \<Rightarrow> [[x]])"

definition arcname_parts :: "string \<Rightarrow> path" where
  \<comment> \<open>The member name as \<open>_extract_member\<close> cleans it: split at slashes, without
      empty, \<open>.\<close> and \<open>..\<close> components.\<close>
  "arcname_parts fn = filter (\<lambda>x. x \<noteq> [] \<and> x \<noteq> ''.'' \<and> x \<noteq> ''..'') (split_sep CHR ''/'' fn)"

definition member_is_dir :: "member \<Rightarrow> bool" where
  \<comment> \<open>\<open>ZipInfo.is_dir\<close>: the name ends in a slash.\<close>
  "member_is_dir m = (filename m \<noteq> [] \<and> last (filename m) = CHR ''/'')"

definition extract_member :: "member \<Rightarrow> path \<Rightarrow> node \<Rightarrow> node \<times> exn option" where
  \<comment> \<open>\<open>ZipFile._extract_member\<close>: the target is the normalised join of the directory
      and the cleaned member name; the upper directories are made when missing; a
      directory member is made when it is not there; a file member is opened, the
      target is opened for writing, and the data copied.\<close>
  "extract_member m targetdir t =
     (let targetpath = normpath (targetdir @ arcname_parts (filename m));
          upperdirs = parent targetpath
      in case (if upperdirs \<noteq> [] \<and> \<not> exists t upperdirs then makedirs upperdirs t else Inr t) of
           Inl e \<Rightarrow> (t, Some e)
         | Inr t1 \<Rightarrow>
             if member_is_dir m then
               (if \<not> is_dir t1 targetpath
                then (case os_mkdir targetpath t1 of
                        Inl e \<Rightarrow> (t1, Some e)
                      | Inr t2 \<Rightarrow> (t2, None))
                else (t1, None))
             else
               (case member_open m of
                  Inl e \<Rightarrow> (t1, Some e)
                | Inr src \<Rightarrow>
                    (case open_wb targetpath t1 of
                       Inl e \<Rightarrow> (t1, Some e)
                     | Inr (h, t2) \<Rightarrow>
                         (case read_all src of
                            Inl e \<Rightarrow> (t2, Some e)
                          | Inr d \<Rightarrow> (write_bytes h d t2, None)))))"

fun extractall :: "member list \<Rightarrow> path \<Rightarrow> node \<Rightarrow> node \<times> exn option" where
  \<comment> \<open>\<open>ZipFile.extractall(path)\<close>: the members in order, up to the first exception.\<close>
  "extractall [] targetdir t = (t, None)"
| "extractall (m # ms) targetdir t =
     (case extract_member m targetdir t of
        (t', Some e) \<Rightarrow> (t', Some e)
      | (t', None) \<Rightarrow> extractall ms targetdir t')"

section \<open>The program: \<open>extract_zips.main\<close>\<close>

datatype level = INFO | WARNING | ERROR

record world =
  fs :: node
  stdout :: "string list"
  log :: "(level \<times> string) list"

record loop_state = world +
  total :: int
  extracted_count :: int
  skipped_count :: int

function str_nat :: "nat \<Rightarrow> string" where
  "str_nat n =
     (if n < 10 then [char_of (48 + n)]
      else str_nat (n div 10) @ [char_of (48 + n mod 10)])"
  by pat_completeness auto
termination
  by (relation "measure id") auto

declare str_nat.simps [simp del]

definition str_int :: "int \<Rightarrow> string" where
  \<comment> \<open>\<open>str\<close> of an integer, in decimal.\<close>
  "str_int i = (if i < 0 then ''-'' @ str_nat (nat (- i)) else str_nat (nat i))"

definition print :: "string \<Rightarrow> 'a world_scheme \<Rightarrow> 'a world_scheme" where
  "print line w = w\<lparr>stdout := stdout w @ [line]\<rparr>"

definition logging :: "level \<Rightarrow> string \<Rightarrow> 'a world_scheme \<Rightarrow> 'a world_scheme" where
  "logging lv msg w = w\<lparr>log := log w @ [(lv, msg)]\<rparr>"

definition extract_dir_of :: "bool \<Rightarrow> path \<Rightarrow> exn + path" where
  \<comment> \<open>Lines 35 to 38: where the archive is extracted.\<close>
  "extract_dir_of extract_into_subfolder zpath =
     (if extract_into_subfolder then with_suffix zpath [] else Inr (parent zpath))"

datatype body_result = Extracted | Continue string | Raised exn

definition try_body :: "path \<Rightarrow> path \<Rightarrow> node \<Rightarrow> node \<times> body_result" where
  \<comment> \<open>Lines 43 to 52, the statements under \<open>try\<close> up to the end of \<open>with\<close>.\<close>
  "try_body zpath extract_dir t =
     (case zip_open t zpath of
        Inl e \<Rightarrow> (t, Raised e)
      | Inr zf \<Rightarrow>
          (case testzip zf of
             Inl e \<Rightarrow> (t, Raised e)
           | Inr (Some bad_file) \<Rightarrow> (t, Continue bad_file)
           | Inr None \<Rightarrow>
               (case extractall zf extract_dir t of
                  (t', Some e) \<Rightarrow> (t', Raised e)
                | (t', None) \<Rightarrow> (t', Extracted))))"

definition skip :: "loop_state \<Rightarrow> loop_state" where
  "skip st = st\<lparr>skipped_count := skipped_count st + 1\<rparr>"

definition except_clauses :: "exn \<Rightarrow> path \<Rightarrow> loop_state \<Rightarrow> loop_state" where
  \<comment> \<open>Lines 57 to 69: the handlers in the order they are written.\<close>
  "except_clauses e zpath st =
     (if is_BadZipFile e then
        skip (logging WARNING
          (''Bad/corrupted zip file (BadZipFile): '' @ path_str zpath @ ''. Skipping.'') st)
      else if is_RuntimeError e then
        skip (logging WARNING
          (''RuntimeError with '' @ path_str zpath @ '': '' @ exn_str e @ ''. Skipping.'') st)
      else if is_PermissionError e then
        skip (logging ERROR
          (''PermissionError extracting '' @ path_str zpath @ '': '' @ exn_str e @ ''. Skipping.'') st)
      else
        skip (logging ERROR
          (''Unexpected error with '' @ path_str zpath @ '': '' @ exn_str e @ ''. Skipping.'') st))"

definition process_archive :: "bool \<Rightarrow> path \<Rightarrow> loop_state \<Rightarrow> loop_state \<times> exn option" where
  \<comment> \<open>Lines 32 to 69, one turn of the loop.  The second component is an exception that
      leaves the loop: the destination is computed and made before \<open>try\<close>.\<close>
  "process_archive extract_into_subfolder zpath st =
     (case extract_dir_of extract_into_subfolder zpath of
        Inl e \<Rightarrow> (st, Some e)
      | Inr extract_dir \<Rightarrow>
          (case path_mkdir extract_dir (fs st) of
             Inl e \<Rightarrow> (st, Some e)
           | Inr t1 \<Rightarrow>
               (case try_body zpath extract_dir t1 of
                  (t2, Continue bad_file) \<Rightarrow>
                    (skip (logging WARNING
                       (''Corrupted member '' @ repr_str bad_file @ '' inside ''
                          @ path_str zpath @ ''. Skipping.'') (st\<lparr>fs := t2\<rparr>)), None)
                | (t2, Extracted) \<Rightarrow>
                    ((logging INFO
                       (''Extracted: '' @ path_str zpath @ '' -> '' @ path_str extract_dir)
                       (st\<lparr>fs := t2\<rparr>))\<lparr>extracted_count := extracted_count st + 1\<rparr>, None)
                | (t2, Raised e) \<Rightarrow> (except_clauses e zpath (st\<lparr>fs := t2\<rparr>), None))))"

fun main_loop :: "bool \<Rightarrow> path list \<Rightarrow> loop_state \<Rightarrow> loop_state \<times> exn option" where
  \<comment> \<open>Line 31: \<open>for zpath in zip_paths\<close>.\<close>
  "main_loop extract_into_subfolder [] st = (st, None)"
| "main_loop extract_into_subfolder (zpath # zip_paths) st =
     (case process_archive extract_into_subfolder zpath st of
        (st', Some e) \<Rightarrow> (st', Some e)
      | (st', None) \<Rightarrow> main_loop extract_into_subfolder zip_paths st')"

datatype outcome =
    SystemExit int
  | NoArchives
  | Completed int int int
  | Uncaught exn

fun exit_code :: "outcome \<Rightarrow> int" where
  \<comment> \<open>The exit status of the interpreter when \<open>main\<close> ends this way.\<close>
  "exit_code (SystemExit n) = n"
| "exit_code NoArchives = 0"
| "exit_code (Completed t e s) = 0"
| "exit_code (Uncaught e) = 1"

definition initial_state :: "world \<Rightarrow> path list \<Rightarrow> loop_state" where
  \<comment> \<open>Lines 27 to 29: the three counters before the loop.\<close>
  "initial_state w zip_paths =
     world.extend w \<lparr>total = int (length zip_paths), extracted_count = 0, skipped_count = 0\<rparr>"

definition main :: "path \<Rightarrow> bool \<Rightarrow> world \<Rightarrow> outcome \<times> world" where
  "main base_dir extract_into_subfolder w =
     (if \<not> exists (fs w) base_dir then
        (SystemExit 1, print (''Error: base directory does not exist: '' @ path_str base_dir) w)
      else
        let zip_paths = rglob (fs w) base_dir ''*.zip''
        in if zip_paths = [] then
             (NoArchives, print (''No .zip files found under: '' @ path_str base_dir) w)
           else
             (case main_loop extract_into_subfolder zip_paths (initial_state w zip_paths) of
                (st, Some e) \<Rightarrow> (Uncaught e, world.truncate st)
              | (st, None) \<Rightarrow>
                  (Completed (total st) (extracted_count st) (skipped_count st),
                   world.truncate
                     (print (''Skipped / failed: '' @ str_int (skipped_count st))
                       (print (''Successfully extracted: '' @ str_int (extracted_count st))
                         (print (''Scanned '' @ str_int (total st) @ '' .zip files.'')
                           (print [] st)))))))"

section \<open>What a path resolves to\<close>

text \<open>
  The properties below speak about the file system through what sits under each list of
  entry names: a directory, or a file with its access flag and bytes.  Two trees that
  agree on this for every list hold the same directories and the same files with the same
  bytes.
\<close>

datatype stat = SDir | SFile bool content

fun kind :: "node \<Rightarrow> stat" where
  "kind (Dir es) = SDir"
| "kind (File a c) = SFile a c"

definition stat_of :: "node \<Rightarrow> path \<Rightarrow> stat option" where
  \<comment> \<open>What sits under the entry names \<open>p\<close> from the root.\<close>
  "stat_of t p = (case descend t p of Found x \<Rightarrow> Some (kind x) | _ \<Rightarrow> None)"

definition dotfree :: "path \<Rightarrow> bool" where
  \<comment> \<open>A path of entry names only.\<close>
  "dotfree p \<longleftrightarrow> ''.'' \<notin> set p \<and> ''..'' \<notin> set p"


definition blocked :: "node \<Rightarrow> path \<Rightarrow> bool" where
  "blocked t p \<longleftrightarrow> (\<exists>q a c. prefix q p \<and> stat_of t q = Some (SFile a c))"

definition with_dirs :: "(path \<Rightarrow> stat option) \<Rightarrow> path \<Rightarrow> path \<Rightarrow> stat option" where
  "with_dirs V p = (\<lambda>q. if prefix q p \<and> V q = None then Some SDir else V q)"


fun wf_node :: "node \<Rightarrow> bool" where
  \<comment> \<open>No directory lists a name twice.\<close>
  "wf_node (File a c) = True"
| "wf_node (Dir es) = (distinct (map fst es) \<and> (\<forall>e \<in> set es. wf_node (snd e)))"

section \<open>Example file systems\<close>

definition world_of :: "node \<Rightarrow> world" where
  \<comment> \<open>A process that has printed and logged nothing yet.\<close>
  "world_of t = \<lparr>fs = t, stdout = [], log = []\<rparr>"

definition ex_two :: node where
  \<comment> \<open>A good archive and a file that is not a zip container.\<close>
  "ex_two = Dir [(''a.zip'', File True (Zip [Member ''x.txt'' Intact (Raw ''hi'')])),
                 (''b.zip'', File True (Raw ''junk''))]"

definition ex_nested :: node where
  \<comment> \<open>An archive in a subdirectory.\<close>
  "ex_nested = Dir [(''d'', Dir [(''a.zip'', File True (Zip [Member ''x.txt'' Intact (Raw ''hi'')]))])]"


definition ex_dir_zip :: node where
  \<comment> \<open>A directory whose name ends in \<open>.zip\<close>.\<close>
  "ex_dir_zip = Dir [(''c.zip'', Dir [(''inner.txt'', File True (Raw ''x''))])]"

definition ex_clash :: node where
  \<comment> \<open>A file \<open>a\<close> beside an archive \<open>a.zip\<close>, and a second archive.\<close>
  "ex_clash = Dir [(''a'', File True (Raw ''notes'')),
                   (''a.zip'', File True (Zip [Member ''x.txt'' Intact (Raw ''hi'')])),
                   (''b.zip'', File True (Zip [Member ''y.txt'' Intact (Raw ''yo'')]))]"

definition ex_locked :: node where
  \<comment> \<open>An archive the process may not open.\<close>
  "ex_locked = Dir [(''p.zip'', File False (Zip []))]"

definition ex_raw :: node where
  \<comment> \<open>A file that is not a zip container.\<close>
  "ex_raw = Dir [(''b.zip'', File True (Raw ''junk''))]"



definition ex_dot_zip :: node where
  \<comment> \<open>An archive whose whole name is \<open>.zip\<close>.\<close>
  "ex_dot_zip = Dir [(''d'', Dir [(''.zip'', File True (Zip [Member ''x.txt'' Intact (Raw ''hi'')]))])]"

section \<open>Path resolution and directory creation\<close>

lemma stat_of_Nil [simp]: "stat_of t [] = Some (kind t)"
  by (simp add: stat_of_def)

lemma stat_of_File [simp]: "stat_of (File a c) (n # ns) = None"
  by (simp add: stat_of_def)

lemma stat_of_Dir [simp]:
  "stat_of (Dir es) (n # ns) = (case map_of es n of None \<Rightarrow> None | Some ch \<Rightarrow> stat_of ch ns)"
  by (simp add: stat_of_def split: option.splits)




lemma descend_append:
  "descend t (p @ r) =
     (case descend t p of Found x \<Rightarrow> descend x r | Missing \<Rightarrow> Missing | NotDir \<Rightarrow> NotDir)"
proof (induction p arbitrary: t)
  case Nil
  then show ?case by simp
next
  case (Cons n ns)
  then show ?case by (cases t) (auto split: option.splits)
qed

lemma stat_of_walk: "stat_of t p = (case descend t p of Found x \<Rightarrow> Some (kind x) | _ \<Rightarrow> None)"
  by (simp add: stat_of_def)

lemma stat_of_append:
  "stat_of t (p @ r) = (case descend t p of Found x \<Rightarrow> stat_of x r | _ \<Rightarrow> None)"
  by (simp add: stat_of_walk descend_append split: walk.splits)

lemma stat_of_ext_None: "stat_of t q = None \<Longrightarrow> stat_of t (q @ r) = None"
proof -
  assume a: "stat_of t q = None"
  show ?thesis
  proof (cases "descend t q")
    case (Found x)
    with a show ?thesis by (simp add: stat_of_walk)
  next
    case Missing
    then show ?thesis by (simp add: stat_of_append)
  next
    case NotDir
    then show ?thesis by (simp add: stat_of_append)
  qed
qed

lemma stat_of_ext_File: "stat_of t q = Some (SFile a c) \<Longrightarrow> r \<noteq> [] \<Longrightarrow> stat_of t (q @ r) = None"
proof -
  assume a: "stat_of t q = Some (SFile a c)" and r: "r \<noteq> []"
  then obtain x where x: "descend t q = Found x" and k: "kind x = SFile a c"
    by (auto simp: stat_of_walk split: walk.splits)
  then have "x = File a c" by (cases x) auto
  with x r show ?thesis by (cases r) (auto simp: stat_of_append)
qed

lemma stat_of_prefix_Dir:
  assumes "stat_of t p \<noteq> None" and "strict_prefix q p"
  shows "stat_of t q = Some SDir"
proof -
  from assms(2) obtain r where p: "p = q @ r" and r: "r \<noteq> []"
    by (auto simp: strict_prefix_def prefix_def)
  show ?thesis
  proof (cases "stat_of t q")
    case None
    with assms(1) p stat_of_ext_None [of t q r] show ?thesis by simp
  next
    case (Some k)
    show ?thesis
    proof (cases k)
      case SDir
      with Some show ?thesis by simp
    next
      case (SFile a c)
      with Some assms(1) p r stat_of_ext_File [of t q a c r] show ?thesis by simp
    qed
  qed
qed

lemma walk_NotDir_blocked:
  "descend t p = NotDir \<Longrightarrow> \<exists>q a c. strict_prefix q p \<and> stat_of t q = Some (SFile a c)"
proof (induction p arbitrary: t)
  case Nil
  then show ?case by simp
next
  case (Cons n ns)
  show ?case
  proof (cases t)
    case (File a c)
    then have "strict_prefix [] (n # ns) \<and> stat_of t [] = Some (SFile a c)" by simp
    then show ?thesis by blast
  next
    case (Dir es)
    with Cons.prems obtain ch where ch: "map_of es n = Some ch" and w: "descend ch ns = NotDir"
      by (auto split: option.splits)
    from Cons.IH [OF w] obtain q a c where q: "strict_prefix q ns" "stat_of ch q = Some (SFile a c)"
      by blast
    with Dir ch have "strict_prefix (n # q) (n # ns) \<and> stat_of t (n # q) = Some (SFile a c)"
      by simp
    then show ?thesis by blast
  qed
qed

lemma walk_Missing_not_blocked:
  "descend t p = Missing \<Longrightarrow> \<not> blocked t p"
proof (induction p arbitrary: t)
  case Nil
  then show ?case by simp
next
  case (Cons n ns)
  then obtain es where t: "t = Dir es" by (cases t) auto
  show ?case
  proof (cases "map_of es n")
    case None
    with t show ?thesis by (auto simp: blocked_def prefix_Cons)
  next
    case (Some ch)
    with t Cons.prems have "descend ch ns = Missing" by simp
    from Cons.IH [OF this] t Some show ?thesis
      by (auto simp: blocked_def prefix_Cons)
  qed
qed

lemma blocked_File: "stat_of t p = Some (SFile a c) \<Longrightarrow> blocked t p"
  by (auto simp: blocked_def)

lemma blocked_prefix: "blocked t q \<Longrightarrow> prefix q p \<Longrightarrow> blocked t p"
  by (auto simp: blocked_def intro: prefix_order.trans)

lemma Dir_not_blocked: "stat_of t p = Some SDir \<Longrightarrow> \<not> blocked t p"
proof
  assume d: "stat_of t p = Some SDir" and "blocked t p"
  then obtain q a c where q: "prefix q p" "stat_of t q = Some (SFile a c)"
    by (auto simp: blocked_def)
  with d have "strict_prefix q p" by (auto simp: strict_prefix_def)
  from stat_of_prefix_Dir [OF _ this, of t] d q show False by simp
qed


lemma stat_of_child:
  assumes "p \<noteq> []" and "descend t (butlast p) = Found (Dir es)"
  shows "stat_of t p = map_option kind (map_of es (last p))"
proof -
  have "stat_of t (butlast p @ [last p]) = map_option kind (map_of es (last p))"
    using assms(2) by (simp add: stat_of_append split: option.splits)
  with assms(1) show ?thesis by simp
qed


section \<open>Resolution, and operations that only add\<close>

lemma stat_of_snoc:
  "descend t cp = Found (Dir es) \<Longrightarrow> stat_of t (cp @ [n]) = map_option kind (map_of es n)"
  by (simp add: stat_of_append split: option.splits)

lemma stat_of_butlast: "stat_of t cp \<noteq> None \<Longrightarrow> stat_of t (butlast cp) \<noteq> None"
proof (cases "cp = []")
  case True
  then show ?thesis by simp
next
  case False
  assume a: "stat_of t cp \<noteq> None"
  from False have "strict_prefix (butlast cp) cp"
    by (metis append_butlast_last_id prefix_order.less_le prefixeq_butlast snoc_eq_iff_butlast butlast_snoc self_append_conv not_Cons_self2)
  from stat_of_prefix_Dir [OF a this] show ?thesis by simp
qed






lemma resolve_exists:
  "stat_of t cp \<noteq> None \<Longrightarrow> resolve t cp p = Found cp' \<Longrightarrow> stat_of t cp' \<noteq> None"
proof (induction p arbitrary: cp)
  case Nil
  then show ?case by simp
next
  case (Cons n ns)
  from Cons.prems(2) obtain es where es: "descend t cp = Found (Dir es)"
    by (auto split: walk.splits node.splits)
  show ?case
  proof (cases "n = ''.''")
    case True
    with Cons.prems es Cons.IH [of cp] show ?thesis by simp
  next
    case nd: False
    show ?thesis
    proof (cases "n = ''..''")
      case True
      with nd Cons.prems(2) es have "resolve t (butlast cp) ns = Found cp'" by simp
      with Cons.IH [OF stat_of_butlast [OF Cons.prems(1)]] show ?thesis by simp
    next
      case False
      with nd Cons.prems(2) es obtain ch where ch: "map_of es n = Some ch"
        and r: "resolve t (cp @ [n]) ns = Found cp'"
        by (auto split: option.splits)
      from stat_of_snoc [OF es, of n] ch have "stat_of t (cp @ [n]) \<noteq> None" by simp
      from Cons.IH [OF this r] show ?thesis .
    qed
  qed
qed














section \<open>Names, suffixes and the pattern\<close>

lemma rfind_dot_zip: "rfind CHR ''.'' (s @ ''.zip'') = int (length s)"
  by (induction s) (simp_all add: Let_def)

lemma stem_dot_zip: "s \<noteq> [] \<Longrightarrow> stem (s @ ''.zip'') = s"
  by (simp add: stem_def rfind_dot_zip Let_def)

lemma stem_only_dot_zip: "stem ''.zip'' = ''.zip''"
  by (simp add: stem_def Let_def)

lemma take_suffix_of: "suffix_of nm \<noteq> [] \<Longrightarrow> take (length nm - length (suffix_of nm)) nm = stem nm"
  by (auto simp: suffix_of_def stem_def Let_def split: if_splits)

lemma suffix_of_empty: "suffix_of nm = [] \<Longrightarrow> stem nm = nm"
  by (auto simp: suffix_of_def stem_def Let_def split: if_splits)

lemma with_suffix_empty: "name p \<noteq> [] \<Longrightarrow> with_suffix p [] = Inr (parent p @ [stem (name p)])"
  by (simp add: with_suffix_def Let_def take_suffix_of suffix_of_empty)

lemma fnmatch_literal: "CHR ''*'' \<notin> set ps \<Longrightarrow> fnmatch n ps \<longleftrightarrow> n = ps"
  by (induction n ps rule: fnmatch.induct) auto

lemma fnmatch_star_literal:
  "CHR ''*'' \<notin> set ps \<Longrightarrow> fnmatch n (CHR ''*'' # ps) \<longleftrightarrow> (\<exists>s. n = s @ ps)"
proof (induction n)
  case Nil
  then show ?case by (cases ps) (auto)
next
  case (Cons c cs)
  have "(\<exists>s. c # cs = s @ ps) \<longleftrightarrow> c # cs = ps \<or> (\<exists>s. cs = s @ ps)"
    by (metis append_eq_Cons_conv append_Nil)
  with Cons show ?case by (simp add: fnmatch_literal)
qed

lemma fnmatch_zip: "fnmatch n ''*.zip'' \<longleftrightarrow> (\<exists>s. n = s @ ''.zip'')"
  using fnmatch_star_literal [of "''.zip''" n] by simp

lemma select_from_match:
  "q \<in> set (select_from pat t) \<Longrightarrow> q \<noteq> [] \<and> fnmatch (last q) pat"
  by (induction pat t arbitrary: q rule: select_from.induct) (auto split: if_splits)

lemma rglob_match:
  assumes "z \<in> set (rglob t base pat)"
  shows "\<exists>q. z = base @ q \<and> q \<noteq> [] \<and> fnmatch (last q) pat"
  using assms select_from_match
  by (auto simp: rglob_def split: option.splits node.splits) 

lemma rglob_name:
  assumes "z \<in> set (rglob t base pat)"
  shows "z \<noteq> [] \<and> fnmatch (name z) pat"
  using rglob_match [OF assms] by (auto simp: name_def)

section \<open>The destination of a path the scan finds\<close>

lemma extract_dir_of_stem:
  assumes "zpath \<in> set (rglob t base_dir ''*.zip'')"
  shows "extract_dir_of True zpath = Inr (parent zpath @ [stem (name zpath)])
       \<and> (\<exists>s. name zpath = s @ ''.zip''
              \<and> stem (name zpath) = (if s = [] then name zpath else s))
       \<and> extract_dir_of False zpath = Inr (parent zpath)"
proof -
  from rglob_name [OF assms] obtain s where s: "name zpath = s @ ''.zip''"
    by (auto simp: fnmatch_zip)
  then have "name zpath \<noteq> []" by simp
  then have "extract_dir_of True zpath = Inr (parent zpath @ [stem (name zpath)])"
    by (simp add: extract_dir_of_def with_suffix_empty)
  moreover have "stem (name zpath) = (if s = [] then name zpath else s)"
    using s by (simp add: stem_dot_zip stem_only_dot_zip)
  ultimately show ?thesis using s by (simp add: extract_dir_of_def)
qed

section \<open>The counters\<close>

lemma except_clauses_counts:
  "total (except_clauses e z st) = total st
   \<and> extracted_count (except_clauses e z st) = extracted_count st
   \<and> skipped_count (except_clauses e z st) = skipped_count st + 1"
  by (simp add: except_clauses_def skip_def logging_def)

lemma process_archive_counts:
  assumes "process_archive sub z st = (st', None)"
  shows "total st' = total st
       \<and> extracted_count st' + skipped_count st' = extracted_count st + skipped_count st + 1"
proof (cases "extract_dir_of sub z")
  case (Inl e)
  with assms show ?thesis by (simp add: process_archive_def)
next
  case (Inr d)
  note d = this
  show ?thesis
  proof (cases "path_mkdir d (fs st)")
    case (Inl e)
    with assms d show ?thesis by (simp add: process_archive_def)
  next
    case (Inr t1)
    obtain t2 r where b: "try_body z d t1 = (t2, r)" by (cases "try_body z d t1")
    show ?thesis
    proof (cases r)
      case Extracted
      with assms d Inr b show ?thesis
        by (auto simp: process_archive_def logging_def)
    next
      case (Continue bad)
      with assms d Inr b show ?thesis
        by (auto simp: process_archive_def logging_def skip_def)
    next
      case (Raised e)
      with assms d Inr b except_clauses_counts [of e z "st\<lparr>fs := t2\<rparr>"] show ?thesis
        by (auto simp: process_archive_def)
    qed
  qed
qed


lemma main_loop_counts:
  "main_loop sub zs st = (st', None) \<Longrightarrow>
     total st' = total st
     \<and> extracted_count st' + skipped_count st'
         = extracted_count st + skipped_count st + int (length zs)"
proof (induction zs arbitrary: st)
  case Nil
  then show ?case by simp
next
  case (Cons z zs)
  obtain st1 r where p: "process_archive sub z st = (st1, r)"
    by (cases "process_archive sub z st")
  with Cons.prems have r: "r = None" and 2: "main_loop sub zs st1 = (st', None)"
    by (cases r; simp)+
  from process_archive_counts [OF p [unfolded r]] Cons.IH [OF 2] show ?case by simp
qed

lemma main_loop_append:
  "main_loop sub (xs @ ys) st =
     (case main_loop sub xs st of
        (st', Some e) \<Rightarrow> (st', Some e)
      | (st', None) \<Rightarrow> main_loop sub ys st')"
proof (induction xs arbitrary: st)
  case Nil
  then show ?case by simp
next
  case (Cons x xs)
  obtain st1 r where p: "process_archive sub x st = (st1, r)"
    by (cases "process_archive sub x st")
  show ?case
  proof (cases r)
    case None
    with p Cons.IH [of st1] show ?thesis by simp
  next
    case (Some e)
    with p show ?thesis by simp
  qed
qed

lemma initial_state_counts:
  "total (initial_state w zs) = int (length zs)
   \<and> extracted_count (initial_state w zs) = 0
   \<and> skipped_count (initial_state w zs) = 0"
  by (simp add: initial_state_def world.defs)

lemma main_completed:
  assumes "fst (main base_dir sub w) = Completed t e s"
  shows "\<exists>st. main_loop sub (rglob (fs w) base_dir ''*.zip'')
                 (initial_state w (rglob (fs w) base_dir ''*.zip'')) = (st, None)
              \<and> t = total st \<and> e = extracted_count st \<and> s = skipped_count st"
proof -
  let ?zs = "rglob (fs w) base_dir ''*.zip''"
  obtain st r where l: "main_loop sub ?zs (initial_state w ?zs) = (st, r)"
    by (cases "main_loop sub ?zs (initial_state w ?zs)")
  have 1: "exists (fs w) base_dir"
    by (rule ccontr) (use assms in \<open>simp add: main_def\<close>)
  have 2: "?zs \<noteq> []"
    by (rule notI) (use assms 1 in \<open>simp add: main_def\<close>)
  show ?thesis
  proof (cases r)
    case None
    with assms 1 2 l show ?thesis by (simp add: main_def Let_def)
  next
    case (Some x)
    with assms 1 2 l show ?thesis by (simp add: main_def Let_def)
  qed
qed

section \<open>Testing an archive\<close>


lemma testzip_None: "testzip ms = Inr None \<longleftrightarrow> (\<forall>x \<in> set ms. status x = Intact)"
proof (induction ms)
  case Nil
  then show ?case by simp
next
  case (Cons m ms)
  then show ?case
    by (cases "status m") (simp_all add: member_open_def read_all_def)
qed

section \<open>The handlers\<close>

lemma except_clauses_eq:
  "\<exists>msg. except_clauses e zpath st
      = st\<lparr>log := log st @ [(if is_BadZipFile e \<or> is_RuntimeError e then WARNING else ERROR, msg)],
           skipped_count := skipped_count st + 1\<rparr>
     \<and> sublist (path_str zpath) msg
     \<and> (\<not> is_BadZipFile e \<longrightarrow> sublist (exn_str e) msg)"
proof -
  have sp: "\<And>a b. sublist (path_str zpath) (a @ path_str zpath @ b)"
    by (rule sublist_appendI)
  have se: "\<And>a b. sublist (exn_str e) ((a @ path_str zpath @ '': '') @ exn_str e @ b)"
    by (rule sublist_appendI)
  show ?thesis
  proof (cases "is_BadZipFile e")
    case True
    with sp [of "''Bad/corrupted zip file (BadZipFile): ''" "''. Skipping.''"] show ?thesis
      by (intro exI [of _ "''Bad/corrupted zip file (BadZipFile): '' @ path_str zpath @ ''. Skipping.''"])
         (simp add: except_clauses_def skip_def logging_def)
  next
    case nb: False
    show ?thesis
    proof (cases "is_RuntimeError e")
      case True
      with nb sp [of "''RuntimeError with ''" "'': '' @ exn_str e @ ''. Skipping.''"]
        se [of "''RuntimeError with ''" "''. Skipping.''"]
      show ?thesis
        by (intro exI [of _ "''RuntimeError with '' @ path_str zpath @ '': '' @ exn_str e @ ''. Skipping.''"])
           (simp add: except_clauses_def skip_def logging_def)
    next
      case nr: False
      show ?thesis
      proof (cases "is_PermissionError e")
        case True
        with nb nr sp [of "''PermissionError extracting ''" "'': '' @ exn_str e @ ''. Skipping.''"]
          se [of "''PermissionError extracting ''" "''. Skipping.''"]
        show ?thesis
          by (intro exI [of _ "''PermissionError extracting '' @ path_str zpath @ '': '' @ exn_str e @ ''. Skipping.''"])
             (simp add: except_clauses_def skip_def logging_def)
      next
        case False
        with nb nr sp [of "''Unexpected error with ''" "'': '' @ exn_str e @ ''. Skipping.''"]
          se [of "''Unexpected error with ''" "''. Skipping.''"]
        show ?thesis
          by (intro exI [of _ "''Unexpected error with '' @ path_str zpath @ '': '' @ exn_str e @ ''. Skipping.''"])
             (simp add: except_clauses_def skip_def logging_def)
      qed
    qed
  qed
qed

section \<open>Ending without processing\<close>

text \<open>
  C3.  When the root directory does not exist, \<open>main\<close> ends the process with exit
  status 1, having printed one line that names the root, and the file system (and the log)
  are as they were.
\<close>

theorem main_missing_root:
  assumes "\<not> exists (fs w) base_dir"
  shows "fst (main base_dir extract_into_subfolder w) = SystemExit 1
       \<and> exit_code (fst (main base_dir extract_into_subfolder w)) \<noteq> 0
       \<and> fs (snd (main base_dir extract_into_subfolder w)) = fs w
       \<and> log (snd (main base_dir extract_into_subfolder w)) = log w
       \<and> stdout (snd (main base_dir extract_into_subfolder w))
           = stdout w @ [''Error: base directory does not exist: '' @ path_str base_dir]"
  using assms by (simp add: main_def print_def)

theorem main_missing_root_witness:
  "fst (main [''gone''] True \<lparr>fs = Dir [(''a.zip'', File True (Zip []))], stdout = [], log = []\<rparr>)
     = SystemExit 1
   \<and> fs (snd (main [''gone''] True
        \<lparr>fs = Dir [(''a.zip'', File True (Zip []))], stdout = [], log = []\<rparr>))
     = Dir [(''a.zip'', File True (Zip []))]"
proof -
  have h: "\<not> exists (fs \<lparr>fs = Dir [(''a.zip'', File True (Zip []))], stdout = [], log = []\<rparr>)
             [''gone'']"
    by code_simp
  from main_missing_root [OF h, of True] show ?thesis by simp
qed

text \<open>
  C4.  When the root exists and the scan finds nothing, \<open>main\<close> prints one line that
  says so and returns normally, which is exit status 0; the file system (and the log) are
  as they were.
\<close>

theorem main_no_archives:
  assumes "exists (fs w) base_dir"
    and "rglob (fs w) base_dir ''*.zip'' = []"
  shows "fst (main base_dir extract_into_subfolder w) = NoArchives
       \<and> exit_code (fst (main base_dir extract_into_subfolder w)) = 0
       \<and> fs (snd (main base_dir extract_into_subfolder w)) = fs w
       \<and> log (snd (main base_dir extract_into_subfolder w)) = log w
       \<and> stdout (snd (main base_dir extract_into_subfolder w))
           = stdout w @ [''No .zip files found under: '' @ path_str base_dir]"
  using assms by (simp add: main_def print_def)

theorem main_no_archives_witness:
  "fst (main [''d''] True
      \<lparr>fs = Dir [(''d'', Dir [(''notes.txt'', File True (Raw ''n''))])], stdout = [], log = []\<rparr>)
     = NoArchives
   \<and> fs (snd (main [''d''] True
        \<lparr>fs = Dir [(''d'', Dir [(''notes.txt'', File True (Raw ''n''))])], stdout = [], log = []\<rparr>))
     = Dir [(''d'', Dir [(''notes.txt'', File True (Raw ''n''))])]"
proof -
  let ?w = "\<lparr>fs = Dir [(''d'', Dir [(''notes.txt'', File True (Raw ''n''))])],
              stdout = [], log = []\<rparr>"
  have h1: "exists (fs ?w) [''d'']" by code_simp
  have h2: "rglob (fs ?w) [''d''] ''*.zip'' = []" by code_simp
  from main_no_archives [OF h1 h2, of True] show ?thesis by simp
qed

section \<open>The tally\<close>

text \<open>
  C1, as amended.  The loop state after the first \<open>k\<close> archives is the result of the
  loop on \<open>take k zip_paths\<close> (by \<open>main_loop_append\<close> the whole loop continues from
  there).  In that state \<open>total\<close> is the number of archives found, as set before the loop,
  and \<open>extracted_count + skipped_count\<close> is the number of archives processed so far; so
  the two sides agree once every archive has been processed, and the totals of a completed
  run satisfy scanned = extracted + skipped.
\<close>

theorem tally:
  "(main_loop sub (take k zip_paths) (initial_state w zip_paths) = (st, None) \<longrightarrow>
        total st = int (length zip_paths)
        \<and> extracted_count st + skipped_count st = int (min k (length zip_paths))
        \<and> (length zip_paths \<le> k \<longrightarrow> total st = extracted_count st + skipped_count st))
   \<and> (fst (main base_dir sub w) = Completed t e s \<longrightarrow> t = e + s)"
proof (intro conjI impI)
  assume "fst (main base_dir sub w) = Completed t e s"
  from main_completed [OF this] obtain st' where
    l: "main_loop sub (rglob (fs w) base_dir ''*.zip'')
          (initial_state w (rglob (fs w) base_dir ''*.zip'')) = (st', None)"
    and "t = total st'" "e = extracted_count st'" "s = skipped_count st'"
    by blast
  with main_loop_counts [OF l] show "t = e + s" by (simp add: initial_state_counts)
next
  assume a: "main_loop sub (take k zip_paths) (initial_state w zip_paths) = (st, None)"
  from main_loop_counts [OF a]
  show "total st = int (length zip_paths)" by (simp add: initial_state_counts)
  from main_loop_counts [OF a]
  show "extracted_count st + skipped_count st = int (min k (length zip_paths))"
    by (simp add: initial_state_counts min_def)
next
  assume a: "main_loop sub (take k zip_paths) (initial_state w zip_paths) = (st, None)"
    and k: "length zip_paths \<le> k"
  from main_loop_counts [OF a] k
  show "total st = extracted_count st + skipped_count st"
    by (simp add: initial_state_counts min_def)
qed

theorem tally_witness:
  "total (fst (main_loop True (take 1 (rglob ex_two [] ''*.zip''))
                 (initial_state (world_of ex_two) (rglob ex_two [] ''*.zip'')))) = 2
   \<and> extracted_count (fst (main_loop True (take 1 (rglob ex_two [] ''*.zip''))
                 (initial_state (world_of ex_two) (rglob ex_two [] ''*.zip''))))
     + skipped_count (fst (main_loop True (take 1 (rglob ex_two [] ''*.zip''))
                 (initial_state (world_of ex_two) (rglob ex_two [] ''*.zip'')))) = 1
   \<and> fst (main [] True (world_of ex_two)) = Completed 2 1 1
   \<and> (2::int) = 1 + 1"
proof -
  let ?zs = "rglob ex_two [] ''*.zip''"
  let ?r = "main_loop True (take 1 ?zs) (initial_state (world_of ex_two) ?zs)"
  have h1: "?r = (fst ?r, None)" by code_simp
  have h2: "fst (main [] True (world_of ex_two)) = Completed 2 1 1" by code_simp
  have h3: "length ?zs = 2" by code_simp
  from tally [of True 1 ?zs "world_of ex_two" "fst ?r" "[]" 2 1 1] h1 h2 h3
  show ?thesis by simp
qed

text \<open>
  C1 as stated fails in the middle of a run: with two archives found, after the first one
  is processed \<open>total\<close> is 2 while one archive has been counted.
\<close>

theorem tally_mid_run_counterexample:
  "snd (main_loop True (take 1 (rglob ex_two [] ''*.zip''))
          (initial_state (world_of ex_two) (rglob ex_two [] ''*.zip''))) = None
   \<and> total (fst (main_loop True (take 1 (rglob ex_two [] ''*.zip''))
                 (initial_state (world_of ex_two) (rglob ex_two [] ''*.zip'')))) = 2
   \<and> extracted_count (fst (main_loop True (take 1 (rglob ex_two [] ''*.zip''))
                 (initial_state (world_of ex_two) (rglob ex_two [] ''*.zip'')))) = 1
   \<and> skipped_count (fst (main_loop True (take 1 (rglob ex_two [] ''*.zip''))
                 (initial_state (world_of ex_two) (rglob ex_two [] ''*.zip'')))) = 0
   \<and> total (fst (main_loop True (take 1 (rglob ex_two [] ''*.zip''))
                 (initial_state (world_of ex_two) (rglob ex_two [] ''*.zip''))))
     \<noteq> extracted_count (fst (main_loop True (take 1 (rglob ex_two [] ''*.zip''))
                 (initial_state (world_of ex_two) (rglob ex_two [] ''*.zip''))))
       + skipped_count (fst (main_loop True (take 1 (rglob ex_two [] ''*.zip''))
                 (initial_state (world_of ex_two) (rglob ex_two [] ''*.zip''))))"
  by code_simp

section \<open>The destination directory\<close>

text \<open>
  C6 does not hold of the program for an archive named \<open>.zip\<close>: the scan finds it,
  \<open>with_suffix\<close> sees no suffix in a name that begins with its only dot and returns the
  archive's own path, and making that directory raises FileExistsError on line 40.  For
  the names \<open>..zip\<close> and \<open>...zip\<close> the last component computed is \<open>.\<close> and \<open>..\<close>.
  The module's description says "folder named after the zip file without .zip".
\<close>

theorem dot_zip_destination:
  "[''d'', ''.zip''] \<in> set (rglob ex_dot_zip [''d''] ''*.zip'')
   \<and> extract_dir_of True [''d'', ''.zip''] = Inr [''d'', ''.zip'']
   \<and> fst (main [''d''] True (world_of ex_dot_zip))
       = Uncaught (FileExistsError (''[Errno 17] File exists: '' @ repr_str (path_str [''d'', ''.zip''])))
   \<and> extract_dir_of True [''d'', ''..zip''] = Inr [''d'', ''.'']
   \<and> extract_dir_of True [''d'', ''...zip''] = Inr [''d'', ''..'']"
  by code_simp

section \<open>Discovery\<close>

text \<open>
  C8 does not hold of the program for a directory whose name ends in \<open>.zip\<close>: the pattern
  is matched against names and nothing checks that a match is a file, so the directory is
  returned by the scan and \<open>main\<close> treats it as an archive.  Here it is counted in the
  total, a destination directory \<open>c\<close> is made for it, and it is skipped when opening it
  raises IsADirectoryError.  The module's description and the comment on line 20 say
  ".zip files".
\<close>

theorem rglob_returns_directory:
  "[''c.zip''] \<in> set (rglob ex_dir_zip [] ''*.zip'')
   \<and> is_dir ex_dir_zip [''c.zip'']
   \<and> fst (main [] True (world_of ex_dir_zip)) = Completed 1 0 1
   \<and> \<not> exists ex_dir_zip [''c'']
   \<and> is_dir (fs (snd (main [] True (world_of ex_dir_zip)))) [''c'']"
  by code_simp

section \<open>A destination that cannot be made\<close>

text \<open>
  C2 does not hold of the program: the destination is made on line 40, before the
  \<open>try\<close> of line 42, so an exception from \<open>mkdir\<close> leaves the loop and \<open>main\<close>.  With
  a file \<open>a\<close> beside \<open>a.zip\<close> the first turn raises FileExistsError; nothing is logged
  or counted, the second archive is never processed and no summary is printed.
\<close>

theorem mkdir_failure_aborts:
  "rglob ex_clash [] ''*.zip'' = [[''a.zip''], [''b.zip'']]
   \<and> path_mkdir [''a''] ex_clash = Inl (FileExistsError (''[Errno 17] File exists: '' @ repr_str ''/a''))
   \<and> fst (main [] True (world_of ex_clash))
       = Uncaught (FileExistsError (''[Errno 17] File exists: '' @ repr_str ''/a''))
   \<and> snd (main [] True (world_of ex_clash)) = world_of ex_clash"
  by code_simp

section \<open>Failures inside the \<open>try\<close>\<close>

text \<open>
  C7, as amended.  Whatever exception the statements under \<open>try\<close> raise for an archive,
  the handlers log one line and count the archive as skipped: at warning level for
  BadZipFile and for RuntimeError (with its subclasses), at error level for PermissionError
  and for every other exception.  Every such line contains the archive path; every line
  but the one for BadZipFile contains the text of the exception.  The turn of the loop
  then ends normally and the loop goes on with the next archive.
\<close>

theorem extraction_failure_classified:
  "(\<exists>msg. except_clauses e zpath st
        = st\<lparr>log := log st @ [(if is_BadZipFile e \<or> is_RuntimeError e then WARNING else ERROR, msg)],
             skipped_count := skipped_count st + 1\<rparr>
       \<and> sublist (path_str zpath) msg
       \<and> (\<not> is_BadZipFile e \<longrightarrow> sublist (exn_str e) msg))
   \<and> (is_PermissionError e \<longrightarrow> \<not> is_BadZipFile e \<and> \<not> is_RuntimeError e)
   \<and> (extract_dir_of sub zpath = Inr d \<and> path_mkdir d (fs st) = Inr t1
        \<and> try_body zpath d t1 = (t2, Raised e) \<longrightarrow>
          process_archive sub zpath st = (except_clauses e zpath (st\<lparr>fs := t2\<rparr>), None)
          \<and> main_loop sub (zpath # rest) st
              = main_loop sub rest (except_clauses e zpath (st\<lparr>fs := t2\<rparr>)))"
proof (intro conjI impI)
  show "\<exists>msg. except_clauses e zpath st
        = st\<lparr>log := log st @ [(if is_BadZipFile e \<or> is_RuntimeError e then WARNING else ERROR, msg)],
             skipped_count := skipped_count st + 1\<rparr>
       \<and> sublist (path_str zpath) msg
       \<and> (\<not> is_BadZipFile e \<longrightarrow> sublist (exn_str e) msg)"
    by (rule except_clauses_eq)
next
  assume "is_PermissionError e"
  then show "\<not> is_BadZipFile e" by (cases e) simp_all
next
  assume "is_PermissionError e"
  then show "\<not> is_RuntimeError e" by (cases e) simp_all
next
  assume a: "extract_dir_of sub zpath = Inr d \<and> path_mkdir d (fs st) = Inr t1
        \<and> try_body zpath d t1 = (t2, Raised e)"
  then show p: "process_archive sub zpath st = (except_clauses e zpath (st\<lparr>fs := t2\<rparr>), None)"
    by (simp add: process_archive_def)
  then show "main_loop sub (zpath # rest) st
              = main_loop sub rest (except_clauses e zpath (st\<lparr>fs := t2\<rparr>))"
    by simp
qed

theorem extraction_failure_classified_witness:
  "is_PermissionError (PermissionError (''[Errno 13] Permission denied: '' @ repr_str ''/p.zip''))
   \<and> try_body [''p.zip''] [''p''] (Dir [(''p.zip'', File False (Zip [])), (''p'', Dir [])])
       = (Dir [(''p.zip'', File False (Zip [])), (''p'', Dir [])],
          Raised (PermissionError (''[Errno 13] Permission denied: '' @ repr_str ''/p.zip'')))
   \<and> (\<exists>msg. process_archive True [''p.zip''] (initial_state (world_of ex_locked) [[''p.zip'']])
        = ((initial_state (world_of ex_locked) [[''p.zip'']])
             \<lparr>fs := Dir [(''p.zip'', File False (Zip [])), (''p'', Dir [])],
              log := [(ERROR, msg)],
              skipped_count := 1\<rparr>, None)
       \<and> sublist ''/p.zip'' msg
       \<and> sublist (''[Errno 13] Permission denied: '' @ repr_str ''/p.zip'') msg)"
proof -
  let ?st = "initial_state (world_of ex_locked) [[''p.zip'']]"
  let ?t1 = "Dir [(''p.zip'', File False (Zip [])), (''p'', Dir [])]"
  let ?e = "PermissionError (''[Errno 13] Permission denied: '' @ repr_str ''/p.zip'')"
  have h0: "is_PermissionError ?e" by simp
  have h1: "extract_dir_of True [''p.zip''] = Inr [''p'']" by code_simp
  have h2: "path_mkdir [''p''] (fs ?st) = Inr ?t1" by code_simp
  have h3: "try_body [''p.zip''] [''p''] ?t1 = (?t1, Raised ?e)" by code_simp
  have l: "log ?st = []" and k: "skipped_count ?st = 0"
    by (simp_all add: initial_state_def world_of_def world.defs)
  have ps: "path_str [''p.zip''] = ''/p.zip''" by simp
  note T = extraction_failure_classified
    [of ?e "[''p.zip'']" "?st\<lparr>fs := ?t1\<rparr>" True "[''p'']" ?t1 ?t1 "[]"]
  note U = extraction_failure_classified
    [of ?e "[''p.zip'']" ?st True "[''p'']" ?t1 ?t1 "[]"]
  from T obtain msg where
    m: "except_clauses ?e [''p.zip''] (?st\<lparr>fs := ?t1\<rparr>)
          = ?st\<lparr>fs := ?t1, log := log ?st @ [(ERROR, msg)],
                 skipped_count := skipped_count ?st + 1\<rparr>"
    and s: "sublist (path_str [''p.zip'']) msg" "sublist (exn_str ?e) msg"
    by auto
  from U h1 h2 h3 have
    "process_archive True [''p.zip''] ?st = (except_clauses ?e [''p.zip''] (?st\<lparr>fs := ?t1\<rparr>), None)"
    by blast
  with m s l k ps h0 h3 show ?thesis by (intro conjI exI [of _ msg]) simp_all
qed

text \<open>
  C7 as stated fails for a malformed archive: the handler for BadZipFile does not bind the
  exception, and its line does not contain the exception's text.
\<close>

theorem badzip_log_counterexample:
  "try_body [''b.zip''] [''b''] (Dir [(''b.zip'', File True (Raw ''junk'')), (''b'', Dir [])])
     = (Dir [(''b.zip'', File True (Raw ''junk'')), (''b'', Dir [])],
        Raised (BadZipFile ''File is not a zip file''))
   \<and> log (snd (main [] True (world_of ex_raw)))
       = [(WARNING, ''Bad/corrupted zip file (BadZipFile): /b.zip. Skipping.'')]
   \<and> \<not> sublist ''File is not a zip file''
          ''Bad/corrupted zip file (BadZipFile): /b.zip. Skipping.''"
  by code_simp

section \<open>An archive with a corrupt member\<close>




section \<open>The destination is made first\<close>



end
